theory Spec2Isabelle
  imports Complex_Main
begin

section \<open>Python strings, dictionaries and built-ins used by the scripts\<close>

text \<open>
  A Python \<open>str\<close> is modelled as a \<open>string\<close> whose characters are read as the code points
  0 to 255. On these code points \<open>str.isspace\<close>, \<open>str.lower\<close> and the regular expression
  classes \<open>\s\<close> and \<open>\d\<close> are the following functions.
  A Python \<open>float\<close> is modelled as an exact rational number: rounding to binary floating
  point, infinities and NaN are outside the model.
\<close>

definition py_isspace :: "char \<Rightarrow> bool" where
  "py_isspace c =
     (let n = (of_char c :: nat)
      in (9 \<le> n \<and> n \<le> 13) \<or> (28 \<le> n \<and> n \<le> 32) \<or> n = 133 \<or> n = 160)"

definition re_digit :: "char \<Rightarrow> bool" where
  "re_digit c = (let n = (of_char c :: nat) in 48 \<le> n \<and> n \<le> 57)"

definition lower_char :: "char \<Rightarrow> char" where
  "lower_char c =
     (let n = (of_char c :: nat)
      in if (65 \<le> n \<and> n \<le> 90) \<or> (192 \<le> n \<and> n \<le> 222 \<and> n \<noteq> 215)
         then char_of (n + 32) else c)"

definition lower :: "string \<Rightarrow> string" where
  "lower s = map lower_char s"

definition strip :: "string \<Rightarrow> string" where
  "strip s = rev (dropWhile py_isspace (rev (dropWhile py_isspace s)))"

text \<open>\<open>t in s\<close> on strings: \<open>t\<close> occurs in \<open>s\<close> as a contiguous substring.\<close>

fun py_in :: "string \<Rightarrow> string \<Rightarrow> bool" where
  "py_in t [] = (t = [])"
| "py_in t (c # cs) = (take (length t) (c # cs) = t \<or> py_in t cs)"

text \<open>\<open>s.replace(a, b)\<close> for single characters \<open>a\<close> and \<open>b\<close>, and \<open>s.replace(a, '')\<close>.\<close>

definition replace_char :: "char \<Rightarrow> char \<Rightarrow> string \<Rightarrow> string" where
  "replace_char a b s = map (\<lambda>c. if c = a then b else c) s"

definition remove_char :: "char \<Rightarrow> string \<Rightarrow> string" where
  "remove_char a s = filter (\<lambda>c. c \<noteq> a) s"

text \<open>
  The value \<open>float(s)\<close> on the plain decimal numerals (optional surrounding whitespace, an
  optional sign, digits with an optional fraction); \<open>None\<close> stands for \<open>ValueError\<close>.
  The whitespace that \<open>float\<close> skips at both ends is narrower than \<open>str.isspace\<close>: the code
  points 28 to 31 are not skipped. Exponents, underscores, \<open>inf\<close> and \<open>nan\<close>, which \<open>float\<close>
  also reads, are not covered: the functions below that call \<open>float\<close> on arbitrary text take
  the parser as a parameter instead.
\<close>

definition float_isspace :: "char \<Rightarrow> bool" where
  "float_isspace c =
     (let n = (of_char c :: nat)
      in (9 \<le> n \<and> n \<le> 13) \<or> n = 32 \<or> n = 133 \<or> n = 160)"

definition float_strip :: "string \<Rightarrow> string" where
  "float_strip s = rev (dropWhile float_isspace (rev (dropWhile float_isspace s)))"

definition digit_val :: "char \<Rightarrow> nat" where
  "digit_val c = of_char c - 48"

definition nat_of_digits :: "string \<Rightarrow> nat" where
  "nat_of_digits ds = foldl (\<lambda>n c. 10 * n + digit_val c) 0 ds"

definition float_decimal :: "string \<Rightarrow> rat option" where
  "float_decimal s =
     (let t = float_strip s;
          neg = (t \<noteq> [] \<and> hd t = CHR ''-'');
          u = (if t \<noteq> [] \<and> (hd t = CHR ''-'' \<or> hd t = CHR ''+'') then tl t else t);
          ip = takeWhile re_digit u;
          r = dropWhile re_digit u;
          fp = (if r = [] then [] else tl r);
          ok = (r = [] \<or> (hd r = CHR ''.'' \<and> list_all re_digit fp))
      in if ok \<and> (ip \<noteq> [] \<or> fp \<noteq> [])
         then Some ((if neg then - 1 else 1) *
                    (of_nat (nat_of_digits ip) + of_nat (nat_of_digits fp) / 10 ^ length fp))
         else None)"

text \<open>\<open>str(n)\<close> for a non-negative integer.\<close>

fun str_nat :: "nat \<Rightarrow> string" where
  "str_nat n =
     (if n < 10 then [char_of (48 + n)]
      else str_nat (n div 10) @ [char_of (48 + n mod 10)])"

declare str_nat.simps [simp del]

text \<open>
  A \<open>dict\<close> keeps its keys in insertion order, so it is an association list with distinct
  keys: \<open>d[k] = v\<close> overwrites the value in place when the key is there and appends the
  pair otherwise.
\<close>

primrec dict_set :: "'k \<Rightarrow> 'v \<Rightarrow> ('k \<times> 'v) list \<Rightarrow> ('k \<times> 'v) list" where
  "dict_set k v [] = [(k, v)]"
| "dict_set k v (p # ps) = (if fst p = k then (k, v) # ps else p # dict_set k v ps)"

definition dict_keys :: "('k \<times> 'v) list \<Rightarrow> 'k list" where
  "dict_keys d = map fst d"

text \<open>\<open>d[k].append(x)\<close>: the list stored under \<open>k\<close> grows at its end, in place.\<close>

definition dict_append :: "'k \<Rightarrow> 'a \<Rightarrow> ('k \<times> 'a list) list \<Rightarrow> ('k \<times> 'a list) list" where
  "dict_append k x d = map (\<lambda>(k', v). if k' = k then (k', v @ [x]) else (k', v)) d"

text \<open>\<open>d.get(k, default)\<close>.\<close>

definition dict_get :: "('k \<times> 'v) list \<Rightarrow> 'k \<Rightarrow> 'v \<Rightarrow> 'v" where
  "dict_get d k dflt = (case map_of d k of Some v \<Rightarrow> v | None \<Rightarrow> dflt)"

text \<open>
  \<open>min(x, *xs, key=f)\<close> and \<open>max\<close> on a non-empty sequence with first element \<open>x\<close>: the
  running best is replaced only by a strictly smaller (greater) element, so the first of
  several equal ones is returned.
\<close>

definition py_min_key :: "('a \<Rightarrow> rat) \<Rightarrow> 'a \<Rightarrow> 'a list \<Rightarrow> 'a" where
  "py_min_key f x xs = foldl (\<lambda>b y. if f y < f b then y else b) x xs"

definition py_max_key :: "('a \<Rightarrow> rat) \<Rightarrow> 'a \<Rightarrow> 'a list \<Rightarrow> 'a" where
  "py_max_key f x xs = foldl (\<lambda>b y. if f y > f b then y else b) x xs"

section \<open>The product record\<close>

text \<open>
  The nine columns of a product. The extractor holds them in the dataclass \<open>Product\<close>, the
  integrator in the dicts that \<open>csv.DictReader\<close> yields. The record is typed by stage:
  \<open>'p\<close> is the type of the price and \<open>'o\<close> the type of the three columns that the
  integrator reads with \<open>.get\<close>.
\<close>

record ('p, 'o) Product =
  product_name :: string
  current_price :: 'p
  availability_status :: string
  last_updated :: string
  retailer :: string
  category :: 'o
  unit :: 'o
  image_url :: 'o
  product_id :: string

text \<open>The dataclass: the price is what \<open>sanitize_price\<close> returns, a number or \<open>None\<close>.\<close>

type_synonym product = "(rat option, string) Product"

section \<open>data\_extractor.py\<close>

subsection \<open>sanitize\_price\<close>

text \<open>
  One attempt of \<open>R?\s*(\d+(?:\.\d{2})?)\<close> at the start of \<open>s\<close>, returning group 1.
  Every quantifier is greedy, and giving back never helps: without the \<open>R\<close>, or with fewer
  whitespace characters, the next character is not a digit; the part after \<open>\d+\<close> is optional,
  so the longest run of digits is kept, and the fraction is taken whenever it is there.
\<close>

definition price_match_at :: "string \<Rightarrow> string option" where
  "price_match_at s =
     (let s1 = (if s \<noteq> [] \<and> hd s = CHR ''R'' then tl s else s);
          s2 = dropWhile py_isspace s1;
          ds = takeWhile re_digit s2;
          rest = dropWhile re_digit s2
      in if ds = [] then None
         else Some (ds @ (case rest of
                            d # a # b # _ \<Rightarrow>
                              if d = CHR ''.'' \<and> re_digit a \<and> re_digit b then [d, a, b] else []
                          | _ \<Rightarrow> [])))"

text \<open>\<open>re.search\<close>: the match at the leftmost position that has one.\<close>

fun price_search :: "string \<Rightarrow> string option" where
  "price_search [] = price_match_at []"
| "price_search (c # cs) =
     (case price_match_at (c # cs) of Some g \<Rightarrow> Some g | None \<Rightarrow> price_search cs)"

definition sanitize_price :: "string \<Rightarrow> rat option" where
  "sanitize_price price_text =
     (if price_text = [] then None
      else case price_search (remove_char CHR '','' price_text) of
             Some g \<Rightarrow> (case float_decimal g of Some v \<Rightarrow> Some v | None \<Rightarrow> None)
           | None \<Rightarrow> None)"

subsection \<open>parse\_availability\<close>

definition parse_availability :: "string \<Rightarrow> string" where
  "parse_availability availability_text =
     (if availability_text = [] then ''unknown''
      else let text = lower availability_text
           in if list_ex (\<lambda>term. py_in term text) [''in stock'', ''available'', ''yes'']
              then ''in_stock''
              else if list_ex (\<lambda>term. py_in term text) [''low stock'', ''limited'', ''few left'']
              then ''low_stock''
              else if list_ex (\<lambda>term. py_in term text)
                        [''out of stock'', ''unavailable'', ''sold out'']
              then ''out_of_stock''
              else ''in_stock'')"

subsection \<open>validate\_data\_integrity\<close>

text \<open>
  The error messages are formatted strings that carry the index of the product and, for two
  of them, the offending value; the model keeps exactly these data.
\<close>

datatype integrity_error =
    Missing_product_name nat
  | Invalid_price nat "rat option"
  | Missing_retailer nat
  | Invalid_availability_status nat string

text \<open>The body of the loop: \<open>errors\<close> comes in and goes out.\<close>

definition check_product :: "integrity_error list \<Rightarrow> nat \<times> product \<Rightarrow> integrity_error list" where
  "check_product errors ip =
     (let i = fst ip; product = snd ip;
          errors1 = (if product_name product = [] then errors @ [Missing_product_name i]
                     else errors);
          errors2 = (if (case current_price product of
                           None \<Rightarrow> True
                         | Some v \<Rightarrow> v = 0 \<or> v \<le> 0)
                     then errors1 @ [Invalid_price i (current_price product)]
                     else errors1);
          errors3 = (if retailer product = [] then errors2 @ [Missing_retailer i]
                     else errors2)
      in if availability_status product
              \<notin> set [''in_stock'', ''low_stock'', ''out_of_stock'', ''unknown'']
         then errors3 @ [Invalid_availability_status i (availability_status product)]
         else errors3)"

definition validate_data_integrity :: "product list \<Rightarrow> bool \<times> integrity_error list" where
  "validate_data_integrity products =
     (let errors = foldl check_product [] (enumerate 0 products);
          is_valid = (length errors = 0)
      in (is_valid, errors))"

text \<open>The four checks that a product passes when the loop adds no error for it.\<close>

definition record_ok :: "product \<Rightarrow> bool" where
  "record_ok p =
     (product_name p \<noteq> [] \<and> (\<exists>v. current_price p = Some v \<and> v > 0) \<and> retailer p \<noteq> [] \<and>
      availability_status p \<in> {''in_stock'', ''low_stock'', ''out_of_stock'', ''unknown''})"

text \<open>
  What the specification asks of \<open>sanitize_price\<close>, in its own words: the first
  currency-like numeric token of the text, read as a decimal number. The token starts at the
  first digit, runs over the digits that follow, and takes a point and two digits when they
  come next.
\<close>

definition first_numeric_token :: "string \<Rightarrow> string option" where
  "first_numeric_token t =
     (let u = dropWhile (\<lambda>c. \<not> re_digit c) t;
          ds = takeWhile re_digit u;
          rest = dropWhile re_digit u
      in if u = [] then None
         else Some (ds @ (case rest of
                            d # a # b # _ \<Rightarrow>
                              if d = CHR ''.'' \<and> re_digit a \<and> re_digit b then [d, a, b] else []
                          | _ \<Rightarrow> [])))"

definition decimal_value :: "string \<Rightarrow> rat" where
  "decimal_value g =
     (let ip = takeWhile re_digit g; fp = drop (Suc (length ip)) g
      in of_nat (nat_of_digits ip) + of_nat (nat_of_digits fp) / 10 ^ length fp)"

section \<open>data\_integration.py\<close>

text \<open>
  A row as \<open>csv.DictReader\<close> yields it: every cell is text, and the price cell of a row that
  is too short is \<open>None\<close>. After \<open>load_csv_data\<close> the price is a number.
\<close>

type_synonym csv_row = "(string option, string option) Product"

type_synonym row = "(rat, string option) Product"

record DataIntegrator =
  data_dir :: string
  src_dir :: string
  retailers :: "string list"

subsection \<open>load\_csv\_data\<close>

text \<open>
  The body of the loop over the rows of one file, whose header names the nine columns.
  \<open>float\<close> is Python's built-in, \<open>None\<close> for \<open>ValueError\<close>; a price cell that is \<open>None\<close>
  raises \<open>TypeError\<close>. Both are caught and the price becomes \<open>0.0\<close>. The source overwrites
  the price in the dict; the model builds the row with the new price.
\<close>

definition load_row :: "(string \<Rightarrow> rat option) \<Rightarrow> csv_row \<Rightarrow> row" where
  "load_row float row =
     \<lparr> product_name = product_name row,
       current_price = (case current_price row of
                          None \<Rightarrow> 0
                        | Some text \<Rightarrow> (case float text of Some v \<Rightarrow> v | None \<Rightarrow> 0)),
       availability_status = availability_status row,
       last_updated = last_updated row,
       retailer = retailer row,
       category = category row,
       unit = unit row,
       image_url = image_url row,
       product_id = product_id row \<rparr>"

definition load_csv_data :: "(string \<Rightarrow> rat option) \<Rightarrow> csv_row list \<Rightarrow> row list" where
  "load_csv_data float rows = foldl (\<lambda>products row. products @ [load_row float row]) [] rows"

subsection \<open>find\_best\_prices\<close>

record price_range =
  pr_min :: rat
  pr_max :: rat

record best_price =
  best_product :: row
  all_prices :: "row list"
  savings :: rat
  price_range :: price_range

text \<open>The body of the first loop: \<open>product_groups\<close> comes in and goes out.\<close>

definition group_step :: "(string \<times> row list) list \<Rightarrow> row \<Rightarrow> (string \<times> row list) list" where
  "group_step product_groups product =
     (let normalized_name = strip (lower (product_name product));
          product_groups1 = (if normalized_name \<notin> set (dict_keys product_groups)
                             then dict_set normalized_name [] product_groups
                             else product_groups)
      in dict_append normalized_name product product_groups1)"

text \<open>
  The entry stored for a group whose list of products is \<open>p # ps\<close>. \<open>max\<close> and \<open>min\<close> of
  \<open>prices\<close> are called when \<open>len(prices) > 1\<close>, that is when \<open>prices\<close> has a first and a
  second element, and once more for the range when \<open>prices\<close> is not empty.
\<close>

definition best_price_entry :: "row \<Rightarrow> row list \<Rightarrow> best_price" where
  "best_price_entry p ps =
     (let products = p # ps;
          best_product = py_min_key current_price p ps;
          prices = map current_price (filter (\<lambda>q. current_price q > 0) products);
          savings = (case prices of
                       a # b # rest \<Rightarrow>
                         (let max_price = py_max_key id a (b # rest);
                              min_price = py_min_key id a (b # rest)
                          in max_price - min_price)
                     | _ \<Rightarrow> 0)
      in \<lparr> best_product = best_product,
           all_prices = products,
           savings = savings,
           price_range =
             \<lparr> pr_min = (case prices of a # rest \<Rightarrow> py_min_key id a rest | [] \<Rightarrow> 0),
               pr_max = (case prices of a # rest \<Rightarrow> py_max_key id a rest | [] \<Rightarrow> 0) \<rparr> \<rparr>)"

text \<open>The body of the second loop; an empty group is skipped (\<open>continue\<close>).\<close>

definition best_step ::
  "(string \<times> best_price) list \<Rightarrow> string \<times> row list \<Rightarrow> (string \<times> best_price) list" where
  "best_step best_prices item =
     (case snd item of
        [] \<Rightarrow> best_prices
      | p # ps \<Rightarrow> dict_set (fst item) (best_price_entry p ps) best_prices)"

definition find_best_prices :: "row list \<Rightarrow> (string \<times> best_price) list" where
  "find_best_prices all_products =
     (let product_groups = foldl group_step [] all_products;
          best_prices = foldl best_step [] product_groups
      in best_prices)"

text \<open>
  A call of the method with the objects it can reach: the integrator and the list it is
  given. The method assigns to its locals only, never to an attribute of \<open>self\<close> nor to
  \<open>all_products\<close> or one of its rows, so the call hands both back as they were.
\<close>

definition find_best_prices_call ::
  "DataIntegrator \<times> row list \<Rightarrow> (string \<times> best_price) list \<times> (DataIntegrator \<times> row list)" where
  "find_best_prices_call st = (find_best_prices (snd st), st)"

text \<open>The grouping key of a row, and the keys of a sequence in the order of first encounter.\<close>

definition group_key :: "row \<Rightarrow> string" where
  "group_key product = strip (lower (product_name product))"

definition first_seen :: "'a list \<Rightarrow> 'a list" where
  "first_seen ks = rev (remdups (rev ks))"

text \<open>
  The groups in closed form: one group for each key, in the order of first encounter,
  holding the rows with that key in input order; and the entry of a non-empty group.
\<close>

definition groups_of :: "row list \<Rightarrow> (string \<times> row list) list" where
  "groups_of ps =
     map (\<lambda>k. (k, filter (\<lambda>p. group_key p = k) ps)) (first_seen (map group_key ps))"

definition entry_of :: "row list \<Rightarrow> best_price" where
  "entry_of g = best_price_entry (hd g) (tl g)"

subsection \<open>generate\_mock\_data\_update\<close>

datatype py_error = ZeroDivisionError

text \<open>\<open>x / n\<close> for a number \<open>x\<close> and a length \<open>n\<close>.\<close>

definition py_truediv :: "rat \<Rightarrow> nat \<Rightarrow> py_error + rat" where
  "py_truediv x n = (if n = 0 then Inl ZeroDivisionError else Inr (x / of_nat n))"

text \<open>\<open>sum(xs)\<close>: the elements are added from the left, starting from 0.\<close>

definition py_sum :: "rat list \<Rightarrow> rat" where
  "py_sum xs = foldl (+) 0 xs"

record product_entry =
  product_entry_id :: string
  product_entry_name :: string
  brand :: string
  product_entry_category :: string
  barcode :: string
  image :: string
  product_entry_unit :: string
  unitSize :: string

record location_entry =
  location_id :: string
  location_name :: string
  address :: string
  distance :: rat
  coordinates :: "rat list"
  openingHours :: string

record retailer_entry =
  retailer_entry_id :: string
  retailer_entry_name :: string
  logo :: string
  color :: string
  locations :: "location_entry list"

record price_entry =
  price_entry_id :: string
  productId :: string
  price_entry_retailer :: retailer_entry
  price :: rat
  onSale :: bool
  price_entry_lastUpdated :: string
  availability :: string

record summary_entry =
  totalProducts :: nat
  totalPrices :: nat
  avgSavings :: rat

record mock_data =
  products :: "product_entry list"
  prices :: "price_entry list"
  lastUpdated :: string
  summary :: summary_entry

definition retailer_mapping :: "(string \<times> string) list" where
  "retailer_mapping =
     [(''Checkers'', ''checkers''),
      (''Pick n Pay'', ''pick-n-pay''),
      (''Woolworths'', ''woolworths''),
      (''Shoprite'', ''shoprite''),
      (''SPAR'', ''spar'')]"

definition get_retailer_color :: "string \<Rightarrow> string" where
  "get_retailer_color retailer_name =
     (let colors = [(''Checkers'', ''#00A651''),
                    (''Pick n Pay'', ''#E31837''),
                    (''Woolworths'', ''#00A86B''),
                    (''Shoprite'', ''#FF6B35''),
                    (''SPAR'', ''#006B3F'')]
      in dict_get colors retailer_name ''#6B7280'')"

text \<open>The variables that the two nested loops update.\<close>

record update_state =
  product_id_counter :: nat
  price_id_counter :: nat
  updated_products :: "product_entry list"
  updated_prices :: "price_entry list"

text \<open>The body of the inner loop, over the rows of one group.\<close>

definition price_step :: "update_state \<Rightarrow> row \<Rightarrow> update_state" where
  "price_step st product =
     (let product_id = product_id_counter st;
          price_id = price_id_counter st;
          retailer_id = dict_get retailer_mapping (retailer product) ''unknown'';
          price_entry =
            \<lparr> price_entry_id = str_nat product_id @ ''-'' @ str_nat price_id,
              productId = str_nat product_id,
              price_entry_retailer =
                \<lparr> retailer_entry_id = retailer_id,
                  retailer_entry_name = retailer product,
                  logo = ''https://images.pexels.com/photos/'' @ str_nat (400000 + price_id)
                         @ ''/logo.jpg?auto=compress&cs=tinysrgb&w=100&h=100&fit=crop'',
                  color = get_retailer_color (retailer product),
                  locations =
                    [\<lparr> location_id = retailer_id @ ''-1'',
                       location_name = retailer product @ '' Centurion'',
                       address = ''Centurion Mall, Centurion'',
                       distance = 23 / 10,
                       coordinates = [- (258553 / 10000), 281881 / 10000],
                       openingHours = ''Mon-Sun: 8:00-21:00'' \<rparr>] \<rparr>,
              price = current_price product,
              onSale = False,
              price_entry_lastUpdated = last_updated product,
              availability = replace_char CHR ''_'' CHR ''-'' (availability_status product) \<rparr>
      in st \<lparr> updated_prices := updated_prices st @ [price_entry],
              price_id_counter := price_id + 1 \<rparr>)"

text \<open>The body of the outer loop, over the items of \<open>best_prices\<close>.\<close>

definition product_step :: "update_state \<Rightarrow> string \<times> best_price \<Rightarrow> update_state" where
  "product_step st item =
     (let price_data = snd item;
          best_product = best_product price_data;
          product_id = product_id_counter st;
          product_entry =
            \<lparr> product_entry_id = str_nat product_id,
              product_entry_name = product_name best_product,
              brand = ''Generic'',
              product_entry_category =
                (case category best_product of Some c \<Rightarrow> c | None \<Rightarrow> ''General''),
              barcode = ''600123456789'' @ str_nat product_id,
              image =
                (case image_url best_product of
                   Some u \<Rightarrow> u
                 | None \<Rightarrow> ''https://images.pexels.com/photos/'' @ str_nat (300000 + product_id)
                           @ ''/product.jpg?auto=compress&cs=tinysrgb&w=300&h=200&fit=crop''),
              product_entry_unit = ''each'',
              unitSize = (case unit best_product of Some u \<Rightarrow> u | None \<Rightarrow> ''each'') \<rparr>;
          st1 = st \<lparr> updated_products := updated_products st @ [product_entry] \<rparr>;
          st2 = foldl price_step st1 (all_prices price_data)
      in st2 \<lparr> product_id_counter := product_id + 1 \<rparr>)"

text \<open>
  \<open>now\<close> is the text of \<open>datetime.now().isoformat()\<close>. The average of the summary divides
  by the number of groups only when there is one.
\<close>

definition generate_mock_data_update ::
  "string \<Rightarrow> (string \<times> best_price) list \<Rightarrow> py_error + mock_data" where
  "generate_mock_data_update now best_prices =
     (let st0 = \<lparr> product_id_counter = 1, price_id_counter = 1,
                  updated_products = [], updated_prices = [] \<rparr>;
          st = foldl product_step st0 (take 20 best_prices)
      in case (if best_prices \<noteq> []
               then py_truediv (py_sum (map (\<lambda>item. savings (snd item)) best_prices))
                      (length best_prices)
               else Inr 0) of
           Inl e \<Rightarrow> Inl e
         | Inr avg \<Rightarrow>
             Inr \<lparr> products = updated_products st,
                   prices = updated_prices st,
                   lastUpdated = now,
                   summary = \<lparr> totalProducts = length (updated_products st),
                               totalPrices = length (updated_prices st),
                               avgSavings = avg \<rparr> \<rparr>)"

text \<open>The state after the two nested loops, started from the initial counters.\<close>

definition update_loop :: "(string \<times> best_price) list \<Rightarrow> update_state" where
  "update_loop best_prices =
     foldl product_step
       \<lparr> product_id_counter = 1, price_id_counter = 1, updated_products = [], updated_prices = [] \<rparr>
       (take 20 best_prices)"

section \<open>Example inputs\<close>

text \<open>
  A row as \<open>save_to_csv\<close> writes it and \<open>load_csv_data\<close> reads it back, given by its name, its
  retailer and its price, and merged inputs built from such rows: three offers of bananas
  with a tie for the lowest price; three groups with three, one and no price above 0; two
  rows of a file, the first with a price cell that is not a number.
\<close>

definition sample_row :: "string \<Rightarrow> string \<Rightarrow> rat \<Rightarrow> row" where
  "sample_row n r p =
     \<lparr> product_name = n, current_price = p, availability_status = ''in_stock'',
       last_updated = ''2025-06-01T08:00:00'', retailer = r, category = Some ''Fresh Produce'',
       unit = Some ''per kg'', image_url = Some [], product_id = [] \<rparr>"

definition example_bananas :: "row list" where
  "example_bananas =
     [sample_row ''Bananas'' ''Checkers'' (1999 / 100),
      sample_row ''bananas '' ''Shoprite'' (1799 / 100),
      sample_row ''BANANAS'' ''Woolworths'' (1799 / 100)]"

definition example_mixed :: "row list" where
  "example_mixed =
     [sample_row ''Red Apples'' ''Checkers'' (1999 / 100),
      sample_row ''White Bread'' ''Checkers'' (1599 / 100),
      sample_row ''red apples'' ''Pick n Pay'' (2499 / 100),
      sample_row ''Milk'' ''SPAR'' 0,
      sample_row '' Red Apples'' ''SPAR'' (2699 / 100),
      sample_row ''white bread'' ''Shoprite'' 0]"

definition sample_csv_row :: "string \<Rightarrow> string \<Rightarrow> string option \<Rightarrow> csv_row" where
  "sample_csv_row n r p =
     \<lparr> product_name = n, current_price = p, availability_status = ''in_stock'',
       last_updated = ''2025-06-01T08:00:00'', retailer = r, category = Some ''Fresh Produce'',
       unit = Some ''per kg'', image_url = Some [], product_id = [] \<rparr>"

definition example_csv_rows :: "csv_row list" where
  "example_csv_rows =
     [sample_csv_row ''Bananas'' ''Checkers'' (Some ''N/A''),
      sample_csv_row ''Bananas'' ''Shoprite'' (Some ''17.99'')]"

text \<open>Twenty-one groups of two rows each; the group numbered \<open>i\<close> has savings \<open>i\<close>.\<close>

definition example_many_rows :: "row list" where
  "example_many_rows =
     concat (map (\<lambda>i. [sample_row (''item '' @ str_nat i) ''Checkers'' (of_nat i + 1),
                        sample_row (''Item '' @ str_nat i) ''SPAR'' (2 * of_nat i + 1)])
               [0..<21])"

section \<open>Properties of the extractor\<close>

subsection \<open>Price sanitization\<close>

lemma space_not_digit: "py_isspace c \<Longrightarrow> \<not> re_digit c"
  by (auto simp: py_isspace_def re_digit_def Let_def)

lemma R_not_digit: "\<not> re_digit CHR ''R''"
  by (simp add: re_digit_def)

lemma dot_not_digit: "\<not> re_digit CHR ''.''"
  by (simp add: re_digit_def)

lemma digit_not_sign: "re_digit c \<Longrightarrow> c \<noteq> CHR ''-'' \<and> c \<noteq> CHR ''+'' \<and> c \<noteq> CHR ''.''"
  by (auto simp: re_digit_def)

lemma dropWhile_nondigit_space:
  "dropWhile (\<lambda>c. \<not> re_digit c) (dropWhile py_isspace xs) = dropWhile (\<lambda>c. \<not> re_digit c) xs"
  by (induction xs) (auto simp: space_not_digit)

lemma takeWhile_Nil_iff_hd: "takeWhile P xs = [] \<longleftrightarrow> (xs = [] \<or> \<not> P (hd xs))"
  by (cases xs) auto

lemma dropWhile_not_id: "xs \<noteq> [] \<Longrightarrow> P (hd xs) \<Longrightarrow> dropWhile (\<lambda>c. \<not> P c) xs = xs"
  by (cases xs) auto

text \<open>A successful attempt at some position returns the token that starts at the first digit.\<close>

lemma price_match_at_Some:
  assumes "price_match_at s = Some g"
  shows "first_numeric_token s = Some g"
proof -
  define s1 where "s1 = (if s \<noteq> [] \<and> hd s = CHR ''R'' then tl s else s)"
  define s2 where "s2 = dropWhile py_isspace s1"
  from assms have ne: "takeWhile re_digit s2 \<noteq> []"
    by (auto simp: price_match_at_def Let_def s1_def s2_def split: if_splits)
  then have s2: "s2 \<noteq> []" "re_digit (hd s2)"
    by (auto simp: takeWhile_Nil_iff_hd)
  have "dropWhile (\<lambda>c. \<not> re_digit c) s = dropWhile (\<lambda>c. \<not> re_digit c) s1"
    by (cases s) (auto simp: s1_def R_not_digit)
  also have "\<dots> = dropWhile (\<lambda>c. \<not> re_digit c) s2"
    by (simp add: s2_def dropWhile_nondigit_space)
  also have "\<dots> = s2" using s2 by (rule dropWhile_not_id)
  finally have u: "dropWhile (\<lambda>c. \<not> re_digit c) s = s2" .
  show ?thesis
    using assms ne s2(1) unfolding first_numeric_token_def u price_match_at_def
    by (simp add: Let_def s1_def [symmetric] s2_def [symmetric])
qed

text \<open>An attempt that fails does not start at a digit.\<close>

lemma price_match_at_None:
  assumes "price_match_at (c # cs) = None"
  shows "\<not> re_digit c"
proof
  assume d: "re_digit c"
  then have "c \<noteq> CHR ''R''" using R_not_digit by auto
  moreover have "\<not> py_isspace c" using d space_not_digit by auto
  ultimately show False using assms d
    by (simp add: price_match_at_def Let_def)
qed

lemma price_search_first_token: "price_search t = first_numeric_token t"
proof (induction t)
  case Nil
  show ?case by (simp add: price_match_at_def first_numeric_token_def)
next
  case (Cons c cs)
  show ?case
  proof (cases "price_match_at (c # cs)")
    case None
    then have "\<not> re_digit c" by (rule price_match_at_None)
    then have "first_numeric_token (c # cs) = first_numeric_token cs"
      by (simp add: first_numeric_token_def)
    with None Cons show ?thesis by simp
  next
    case (Some g)
    then show ?thesis by (simp add: price_match_at_Some)
  qed
qed

lemma first_numeric_token_None: "first_numeric_token t = None \<longleftrightarrow> \<not> list_ex re_digit t"
  by (auto simp: first_numeric_token_def Let_def list_ex_iff)

lemma float_space_not_digit: "float_isspace c \<Longrightarrow> \<not> re_digit c"
  by (auto simp: float_isspace_def re_digit_def Let_def)

lemma float_strip_digits:
  assumes "xs \<noteq> []" "re_digit (hd xs)" "re_digit (last xs)"
  shows "float_strip xs = xs"
proof -
  from assms have 1: "dropWhile float_isspace xs = xs"
    by (cases xs) (auto dest: float_space_not_digit)
  from assms have "dropWhile float_isspace (rev xs) = rev xs"
    by (cases "rev xs") (auto dest: float_space_not_digit simp: last_rev hd_rev)
  with 1 show ?thesis by (simp add: float_strip_def)
qed

text \<open>\<open>float\<close> never fails on a token: it is a run of digits, with or without two decimals.\<close>

lemma float_decimal_shape:
  assumes ds: "ds \<noteq> []" "\<forall>c\<in>set ds. re_digit c"
    and fr: "fr = [] \<or> (\<exists>a b. fr = [CHR ''.'', a, b] \<and> re_digit a \<and> re_digit b)"
  shows "float_decimal (ds @ fr) = Some (decimal_value (ds @ fr))"
proof -
  let ?g = "ds @ fr"
  have hd: "re_digit (hd ?g)" using ds by (cases ds) auto
  have last: "re_digit (last ?g)" using ds fr by (auto simp: last_append)
  have strip: "float_strip ?g = ?g" using ds hd last by (intro float_strip_digits) auto
  have sign: "hd ?g \<noteq> CHR ''-''" "hd ?g \<noteq> CHR ''+''" using hd digit_not_sign by auto
  have neg: "(?g \<noteq> [] \<and> hd ?g = CHR ''-'') = False" using sign by simp
  have u: "(if ?g \<noteq> [] \<and> (hd ?g = CHR ''-'' \<or> hd ?g = CHR ''+'') then tl ?g else ?g) = ?g"
    using sign by simp
  have ip: "takeWhile re_digit ?g = ds"
    using ds fr by (auto simp: takeWhile_append dot_not_digit)
  have r: "dropWhile re_digit ?g = fr"
    using ds fr by (auto simp: dropWhile_append dot_not_digit)
  have fp: "drop (Suc (length ds)) ?g = (if fr = [] then [] else tl fr)"
    using fr by auto
  have ok: "fr = [] \<or> (hd fr = CHR ''.'' \<and> list_all re_digit (if fr = [] then [] else tl fr))"
    using fr by auto
  show ?thesis
    unfolding float_decimal_def decimal_value_def Let_def strip neg u ip r fp
    using ok ds(1) by simp
qed

lemma first_numeric_token_shape:
  assumes "first_numeric_token t = Some g"
  shows "\<exists>ds fr. g = ds @ fr \<and> ds \<noteq> [] \<and> (\<forall>c\<in>set ds. re_digit c) \<and>
           (fr = [] \<or> (\<exists>a b. fr = [CHR ''.'', a, b] \<and> re_digit a \<and> re_digit b))"
proof -
  define u where "u = dropWhile (\<lambda>c. \<not> re_digit c) t"
  from assms have u: "u \<noteq> []"
    by (auto simp: first_numeric_token_def Let_def u_def split: if_splits)
  then have "re_digit (hd u)"
    unfolding u_def using hd_dropWhile [of "\<lambda>c. \<not> re_digit c" t] by auto
  with u have ds: "takeWhile re_digit u \<noteq> []" by (simp add: takeWhile_Nil_iff_hd)
  have all: "\<forall>c\<in>set (takeWhile re_digit u). re_digit c" by (auto dest: set_takeWhileD)
  define fr where "fr = (case dropWhile re_digit u of
                            d # a # b # _ \<Rightarrow>
                              if d = CHR ''.'' \<and> re_digit a \<and> re_digit b then [d, a, b] else []
                          | _ \<Rightarrow> [])"
  have fr: "fr = [] \<or> (\<exists>a b. fr = [CHR ''.'', a, b] \<and> re_digit a \<and> re_digit b)"
    by (auto simp: fr_def split: list.splits)
  from assms u have "g = takeWhile re_digit u @ fr"
    by (auto simp: first_numeric_token_def Let_def u_def [symmetric] fr_def)
  with ds all fr show ?thesis by blast
qed

lemma float_decimal_token:
  assumes "first_numeric_token t = Some g"
  shows "float_decimal g = Some (decimal_value g)"
  using first_numeric_token_shape [OF assms] float_decimal_shape by blast

text \<open>
  C5. For every input string, price sanitization returns the first currency-like numeric
  token of the text without its commas, as a decimal number, and returns null exactly when
  the string holds no digit (in particular when it is empty); \<open>R24.99\<close> yields 24.99 and
  \<open>Call for price\<close> yields null.
\<close>

theorem sanitize_price_first_token:
  "sanitize_price s = map_option decimal_value (first_numeric_token (remove_char CHR '','' s)) \<and>
   (sanitize_price s = None \<longleftrightarrow> \<not> list_ex re_digit s) \<and>
   sanitize_price [] = None \<and>
   sanitize_price ''R24.99'' = Some (2499 / 100) \<and>
   sanitize_price ''Call for price'' = None"
proof -
  let ?t = "remove_char CHR '','' s"
  have a: "sanitize_price s = map_option decimal_value (first_numeric_token ?t)"
  proof (cases "s = []")
    case True
    then show ?thesis by (simp add: sanitize_price_def remove_char_def first_numeric_token_def)
  next
    case False
    then show ?thesis
      by (cases "first_numeric_token ?t")
        (simp_all add: sanitize_price_def price_search_first_token float_decimal_token)
  qed
  have "list_ex re_digit ?t = list_ex re_digit s"
    by (auto simp: list_ex_iff remove_char_def re_digit_def)
  then have b: "sanitize_price s = None \<longleftrightarrow> \<not> list_ex re_digit s"
    by (simp add: a first_numeric_token_None)
  have c: "sanitize_price ''R24.99'' = Some (2499 / 100)" by code_simp
  have d: "sanitize_price ''Call for price'' = None" by code_simp
  have e: "sanitize_price [] = None" by (simp add: sanitize_price_def)
  from a b c d e show ?thesis by blast
qed

subsection \<open>Availability\<close>



text \<open>
  The groups are tried in the order of the source, so a text that matches an earlier group
  never reaches a later one: \<open>unavailable\<close> contains \<open>available\<close> and is classified by
  the first group.
\<close>

lemma parse_availability_unavailable: "parse_availability ''unavailable'' = ''in_stock''"
  by code_simp


subsection \<open>Validation\<close>

lemma check_product_Nil: "check_product errors ip = [] \<longleftrightarrow> errors = [] \<and> record_ok (snd ip)"
  by (cases "current_price (snd ip)") (auto simp: check_product_def record_ok_def Let_def)

lemma foldl_check_product_Nil:
  "foldl check_product errors xs = [] \<longleftrightarrow> errors = [] \<and> (\<forall>ip \<in> set xs. record_ok (snd ip))"
  by (induction xs arbitrary: errors) (auto simp: check_product_Nil)

lemma snd_set_enumerate: "snd ` set (enumerate n xs) = set xs"
  by (metis list.set_map map_snd_enumerate)

text \<open>
  C8. For every sequence of product records the validator returns \<open>(valid, errors)\<close> where
  \<open>valid\<close> is true if and only if \<open>errors\<close> is empty, and \<open>errors\<close> is empty exactly when
  every record has a non-empty name, a present price strictly greater than 0, a non-empty
  retailer and an availability status among the four enum values.
\<close>

theorem validate_data_integrity_correct:
  "fst (validate_data_integrity ps) = (snd (validate_data_integrity ps) = []) \<and>
   (snd (validate_data_integrity ps) = [] \<longleftrightarrow>
      (\<forall>p \<in> set ps.
         product_name p \<noteq> [] \<and>
         (case current_price p of None \<Rightarrow> False | Some v \<Rightarrow> v > 0) \<and>
         retailer p \<noteq> [] \<and>
         availability_status p \<in> {''in_stock'', ''low_stock'', ''out_of_stock'', ''unknown''}))"
proof -
  have "(\<forall>ip \<in> set (enumerate 0 ps). record_ok (snd ip)) \<longleftrightarrow> (\<forall>p \<in> set ps. record_ok p)"
    using snd_set_enumerate [of 0 ps] by (metis (no_types, lifting) image_iff)
  moreover have "record_ok p \<longleftrightarrow>
      product_name p \<noteq> [] \<and>
      (case current_price p of None \<Rightarrow> False | Some v \<Rightarrow> v > 0) \<and>
      retailer p \<noteq> [] \<and>
      availability_status p \<in> {''in_stock'', ''low_stock'', ''out_of_stock'', ''unknown''}" for p
    by (cases "current_price p") (simp_all add: record_ok_def)
  ultimately show ?thesis
    by (simp add: validate_data_integrity_def Let_def foldl_check_product_Nil)
qed

theorem validate_data_integrity_correct_witness:
  "list_all (\<lambda>p. product_name p \<noteq> [] \<and>
                  (case current_price p of None \<Rightarrow> False | Some v \<Rightarrow> v > 0) \<and>
                  retailer p \<noteq> [] \<and>
                  availability_status p
                    \<in> {''in_stock'', ''low_stock'', ''out_of_stock'', ''unknown''})
     [\<lparr> product_name = ''White Bread'', current_price = Some (1599 / 100),
        availability_status = ''in_stock'', last_updated = ''2025-06-01T08:00:00'',
        retailer = ''Checkers'', category = ''Bakery'', unit = ''700g'',
        image_url = [], product_id = ''checkers-white-bread-1'' \<rparr> :: product] \<and>
   validate_data_integrity
     [\<lparr> product_name = ''White Bread'', current_price = Some (1599 / 100),
        availability_status = ''in_stock'', last_updated = ''2025-06-01T08:00:00'',
        retailer = ''Checkers'', category = ''Bakery'', unit = ''700g'',
        image_url = [], product_id = ''checkers-white-bread-1'' \<rparr>] = (True, [])"
  using validate_data_integrity_correct
    [of "[\<lparr> product_name = ''White Bread'', current_price = Some (1599 / 100),
        availability_status = ''in_stock'', last_updated = ''2025-06-01T08:00:00'',
        retailer = ''Checkers'', category = ''Bakery'', unit = ''700g'',
        image_url = [], product_id = ''checkers-white-bread-1'' \<rparr>]"]
  by (simp add: prod_eq_iff)

section \<open>Properties of the aggregator\<close>

subsection \<open>Grouping in closed form\<close>

lemma dict_set_fresh: "k \<notin> fst ` set d \<Longrightarrow> dict_set k v d = d @ [(k, v)]"
  by (induction d) auto

lemma first_seen_snoc:
  "first_seen (ks @ [k]) = (if k \<in> set ks then first_seen ks else first_seen ks @ [k])"
  by (simp add: first_seen_def)

lemma set_first_seen: "set (first_seen ks) = set ks"
  by (simp add: first_seen_def)

lemma distinct_first_seen: "distinct (first_seen ks)"
  by (simp add: first_seen_def)

lemma group_step_groups_of: "group_step (groups_of ps) p = groups_of (ps @ [p])"
proof -
  let ?k = "group_key p"
  let ?K = "first_seen (map group_key ps)"
  have keys: "dict_keys (groups_of ps) = ?K"
    by (simp add: dict_keys_def groups_of_def comp_def)
  show ?thesis
  proof (cases "?k \<in> set (map group_key ps)")
    case True
    then have "group_step (groups_of ps) p = dict_append ?k p (groups_of ps)"
      by (simp add: group_step_def Let_def keys set_first_seen group_key_def [symmetric])
    also have "\<dots> = groups_of (ps @ [p])"
      using True by (auto simp: dict_append_def groups_of_def first_seen_snoc)
    finally show ?thesis .
  next
    case False
    then have fresh: "?k \<notin> fst ` set (groups_of ps)"
      using keys by (metis dict_keys_def list.set_map set_first_seen)
    from False have "group_step (groups_of ps) p = dict_append ?k p (groups_of ps @ [(?k, [])])"
      by (simp add: group_step_def Let_def keys set_first_seen group_key_def [symmetric]
          dict_set_fresh [OF fresh])
    also have "\<dots> = groups_of (ps @ [p])"
    proof -
      have "\<forall>q \<in> set ps. group_key q \<noteq> ?k" using False by (metis image_eqI list.set_map)
      then have "filter (\<lambda>q. group_key q = ?k) ps = []" by (simp add: filter_empty_conv)
      then show ?thesis
        using False by (auto simp: dict_append_def groups_of_def first_seen_snoc set_first_seen)
    qed
    finally show ?thesis .
  qed
qed

lemma foldl_group_step: "foldl group_step [] ps = groups_of ps"
proof (induction ps rule: rev_induct)
  case Nil
  show ?case by (simp add: groups_of_def first_seen_def)
next
  case (snoc p ps)
  then show ?case by (simp add: group_step_groups_of)
qed

lemma foldl_best_step:
  "distinct (map fst gs) \<Longrightarrow> \<forall>g \<in> set gs. snd g \<noteq> [] \<Longrightarrow> fst ` set acc \<inter> fst ` set gs = {} \<Longrightarrow>
   foldl best_step acc gs = acc @ map (\<lambda>g. (fst g, entry_of (snd g))) gs"
proof (induction gs arbitrary: acc)
  case Nil
  show ?case by simp
next
  case (Cons g gs)
  from Cons.prems obtain p ps where g: "snd g = p # ps" by (cases "snd g") auto
  from Cons.prems have fresh: "fst g \<notin> fst ` set acc" by auto
  have step: "best_step acc g = acc @ [(fst g, entry_of (snd g))]"
    by (simp add: best_step_def g dict_set_fresh [OF fresh] entry_of_def)
  have "fst ` set (acc @ [(fst g, entry_of (snd g))]) \<inter> fst ` set gs = {}"
    using Cons.prems by auto
  with Cons.IH [of "acc @ [(fst g, entry_of (snd g))]"] Cons.prems step
  show ?case by simp
qed

lemma groups_of_nonempty: "g \<in> set (groups_of ps) \<Longrightarrow> snd g \<noteq> []"
  by (auto simp: groups_of_def set_first_seen filter_empty_conv)

lemma find_best_prices_groups:
  "find_best_prices ps = map (\<lambda>g. (fst g, entry_of (snd g))) (groups_of ps)"
proof -
  have "distinct (map fst (groups_of ps))"
    by (simp add: groups_of_def comp_def distinct_first_seen)
  then show ?thesis
    using foldl_best_step [of "groups_of ps" "[]"] groups_of_nonempty
    by (simp add: find_best_prices_def foldl_group_step)
qed

subsection \<open>Minimum and maximum\<close>

lemma py_min_key_snoc:
  "py_min_key f x (xs @ [y]) = (if f y < f (py_min_key f x xs) then y else py_min_key f x xs)"
  by (simp add: py_min_key_def)

text \<open>The result of min is the first element of least key.\<close>

lemma py_min_key_first:
  "\<exists>i < length (x # xs). py_min_key f x xs = (x # xs) ! i \<and>
     (\<forall>j < length (x # xs). f ((x # xs) ! i) \<le> f ((x # xs) ! j)) \<and>
     (\<forall>j < i. f ((x # xs) ! i) < f ((x # xs) ! j))"
proof (induction xs rule: rev_induct)
  case Nil
  show ?case by (simp add: py_min_key_def)
next
  case (snoc y xs)
  then obtain i where i: "i < length (x # xs)" "py_min_key f x xs = (x # xs) ! i"
    "\<forall>j < length (x # xs). f ((x # xs) ! i) \<le> f ((x # xs) ! j)"
    "\<forall>j < i. f ((x # xs) ! i) < f ((x # xs) ! j)" by blast
  let ?zs = "x # xs @ [y]"
  have nth_old: "?zs ! j = (x # xs) ! j" if "j < length (x # xs)" for j
    using that nth_append [of "x # xs" "[y]" j] by simp
  have nth_new: "?zs ! length (x # xs) = y"
    using nth_append_length [of "x # xs" y "[]"] by simp
  show ?case
  proof (cases "f y < f (py_min_key f x xs)")
    case True
    let ?n = "length (x # xs)"
    have a: "py_min_key f x (xs @ [y]) = ?zs ! ?n"
      using True nth_new by (simp add: py_min_key_snoc)
    have b: "f (?zs ! ?n) \<le> f (?zs ! j)" if "j < length ?zs" for j
    proof (cases "j < ?n")
      case True
      with i(2,3) \<open>f y < f (py_min_key f x xs)\<close> nth_old [of j] nth_new show ?thesis
        by (metis less_le_not_le order_trans linear)
    next
      case False
      with that have "j = ?n" by simp
      then show ?thesis by simp
    qed
    have c: "f (?zs ! ?n) < f (?zs ! j)" if "j < ?n" for j
      using that i(2,3) True nth_old [of j] nth_new by (metis less_le_trans)
    from a b c show ?thesis
      by (intro exI [of _ ?n]) simp
  next
    case False
    have a: "py_min_key f x (xs @ [y]) = ?zs ! i"
      using False i(1,2) nth_old [of i] by (simp add: py_min_key_snoc)
    have b: "f (?zs ! i) \<le> f (?zs ! j)" if "j < length ?zs" for j
    proof (cases "j < length (x # xs)")
      case True
      with i(1,3) nth_old [of j] nth_old [of i] show ?thesis by metis
    next
      case False
      with that have "j = length (x # xs)" by simp
      with \<open>\<not> f y < f (py_min_key f x xs)\<close> i(1,2) nth_old [of i] nth_new show ?thesis
        by (metis not_less)
    qed
    have c: "f (?zs ! i) < f (?zs ! j)" if "j < i" for j
      using that i(1,4) nth_old [of j] nth_old [of i] by (metis less_trans)
    from a b c i(1) show ?thesis
      by (intro exI [of _ i]) simp
  qed
qed

lemma py_min_key_id: "py_min_key id a xs = Min (set (a # xs))"
proof (induction xs arbitrary: a)
  case Nil
  show ?case by (simp add: py_min_key_def)
next
  case (Cons y ys)
  have "py_min_key id a (y # ys) = py_min_key id (if y < a then y else a) ys"
    by (simp add: py_min_key_def)
  also have "\<dots> = Min (set ((if y < a then y else a) # ys))" by (rule Cons.IH)
  also have "\<dots> = Min (set (a # y # ys))"
    by (cases ys) (auto simp: min_def)
  finally show ?case .
qed

lemma py_max_key_id: "py_max_key id a xs = Max (set (a # xs))"
proof (induction xs arbitrary: a)
  case Nil
  show ?case by (simp add: py_max_key_def)
next
  case (Cons y ys)
  have "py_max_key id a (y # ys) = py_max_key id (if y > a then y else a) ys"
    by (simp add: py_max_key_def)
  also have "\<dots> = Max (set ((if y > a then y else a) # ys))" by (rule Cons.IH)
  also have "\<dots> = Max (set (a # y # ys))"
    by (cases ys) (auto simp: max_def)
  finally show ?case .
qed

subsection \<open>Entries of the result\<close>

lemma all_prices_entry_of: "g \<noteq> [] \<Longrightarrow> all_prices (entry_of g) = g"
  by (simp add: entry_of_def best_price_entry_def Let_def)

lemma in_find_best_prices:
  "e \<in> set (find_best_prices ps) \<longleftrightarrow>
     fst e \<in> set (map group_key ps) \<and>
     snd e = entry_of (filter (\<lambda>p. group_key p = fst e) ps)"
proof -
  have "e \<in> set (find_best_prices ps) \<longleftrightarrow>
          (\<exists>k \<in> set (map group_key ps). e = (k, entry_of (filter (\<lambda>p. group_key p = k) ps)))"
    by (auto simp: find_best_prices_groups groups_of_def set_first_seen)
  also have "\<dots> \<longleftrightarrow> fst e \<in> set (map group_key ps) \<and>
     snd e = entry_of (filter (\<lambda>p. group_key p = fst e) ps)"
    by (metis fst_conv snd_conv prod.collapse)
  finally show ?thesis .
qed

lemma group_nonempty:
  "k \<in> set (map group_key ps) \<Longrightarrow> filter (\<lambda>p. group_key p = k) ps \<noteq> []"
  by (auto simp: filter_empty_conv)

lemma all_prices_find_best_prices:
  assumes "e \<in> set (find_best_prices ps)"
  shows "all_prices (snd e) = filter (\<lambda>p. group_key p = fst e) ps" "all_prices (snd e) \<noteq> []"
  using assms group_nonempty [of "fst e" ps]
  by (simp_all add: in_find_best_prices all_prices_entry_of)

lemma best_product_entry_of:
  "best_product (entry_of g) = py_min_key current_price (hd g) (tl g)"
  by (simp add: entry_of_def best_price_entry_def Let_def)

text \<open>
  C1. For every product group that the aggregator emits (each is non-empty and holds the rows
  of its key in input order), \<open>best_product\<close> is a record of the group with minimum
  \<open>current_price\<close>, and every record before it in the group has a strictly greater price:
  among records that share the minimum the first in input order is selected.
\<close>

theorem best_record_first_minimum:
  assumes "e \<in> set (find_best_prices ps)"
  shows "all_prices (snd e) = filter (\<lambda>p. group_key p = fst e) ps \<and>
         (\<exists>i < length (all_prices (snd e)).
            best_product (snd e) = all_prices (snd e) ! i \<and>
            (\<forall>j < length (all_prices (snd e)).
               current_price (best_product (snd e)) \<le> current_price (all_prices (snd e) ! j)) \<and>
            (\<forall>j < i. current_price (best_product (snd e)) < current_price (all_prices (snd e) ! j)))"
proof -
  let ?g = "all_prices (snd e)"
  have g: "?g = filter (\<lambda>p. group_key p = fst e) ps" "?g \<noteq> []"
    using assms by (rule all_prices_find_best_prices)+
  then have "snd e = entry_of ?g" using assms by (simp add: in_find_best_prices)
  then have b: "best_product (snd e) = py_min_key current_price (hd ?g) (tl ?g)"
    by (metis best_product_entry_of)
  from g(2) have split: "hd ?g # tl ?g = ?g" by simp
  from py_min_key_first [of "hd ?g" "tl ?g" current_price]
  have "\<exists>i < length ?g. py_min_key current_price (hd ?g) (tl ?g) = ?g ! i \<and>
     (\<forall>j < length ?g. current_price (?g ! i) \<le> current_price (?g ! j)) \<and>
     (\<forall>j < i. current_price (?g ! i) < current_price (?g ! j))"
    unfolding split .
  with b g(1) show ?thesis by metis
qed

theorem best_record_first_minimum_witness:
  "find_best_prices example_bananas ! 0 \<in> set (find_best_prices example_bananas) \<and>
   retailer (best_product (snd (find_best_prices example_bananas ! 0))) = ''Shoprite'' \<and>
   (\<exists>i < length example_bananas.
      best_product (snd (find_best_prices example_bananas ! 0)) = example_bananas ! i)"
proof -
  let ?e = "find_best_prices example_bananas ! 0"
  have h: "?e \<in> set (find_best_prices example_bananas)" by code_simp
  have g: "all_prices (snd ?e) = example_bananas" by code_simp
  have r: "retailer (best_product (snd ?e)) = ''Shoprite''" by code_simp
  from best_record_first_minimum [OF h]
  have "\<exists>i < length (all_prices (snd ?e)). best_product (snd ?e) = all_prices (snd ?e) ! i"
    by blast
  then have "\<exists>i < length example_bananas. best_product (snd ?e) = example_bananas ! i"
    unfolding g .
  with h r show ?thesis by blast
qed

lemma savings_entry_of:
  assumes "g \<noteq> []"
  defines "P \<equiv> map current_price (filter (\<lambda>q. current_price q > 0) g)"
  shows "savings (entry_of g) = (if 2 \<le> length P then Max (set P) - Min (set P) else 0)"
    and "price_range (entry_of g) =
           (if P = [] then \<lparr> pr_min = 0, pr_max = 0 \<rparr>
            else \<lparr> pr_min = Min (set P), pr_max = Max (set P) \<rparr>)"
proof -
  from assms(1) have g: "hd g # tl g = g" by simp
  show "savings (entry_of g) = (if 2 \<le> length P then Max (set P) - Min (set P) else 0)"
  proof (cases P)
    case Nil
    then show ?thesis
      unfolding P_def entry_of_def best_price_entry_def Let_def g by simp
  next
    case (Cons a as)
    then show ?thesis
      unfolding P_def entry_of_def best_price_entry_def Let_def g
      by (cases as) (simp_all add: py_min_key_id py_max_key_id)
  qed
  show "price_range (entry_of g) =
           (if P = [] then \<lparr> pr_min = 0, pr_max = 0 \<rparr>
            else \<lparr> pr_min = Min (set P), pr_max = Max (set P) \<rparr>)"
  proof (cases P)
    case Nil
    then show ?thesis
      unfolding P_def entry_of_def best_price_entry_def Let_def g by simp
  next
    case (Cons a as)
    then show ?thesis
      unfolding P_def entry_of_def best_price_entry_def Let_def g
      by (simp add: py_min_key_id py_max_key_id)
  qed
qed

lemma savings_cases:
  assumes "e \<in> set (find_best_prices ps)"
    and "P = map current_price (filter (\<lambda>q. current_price q > 0) (all_prices (snd e)))"
  shows "(2 \<le> length P \<longrightarrow>
            savings (snd e) = Max (set P) - Min (set P) \<and>
            price_range (snd e) = \<lparr> pr_min = Min (set P), pr_max = Max (set P) \<rparr>) \<and>
         (length P < 2 \<longrightarrow>
            savings (snd e) = 0 \<and> pr_min (price_range (snd e)) = pr_max (price_range (snd e))) \<and>
         (\<forall>x. P = [x] \<longrightarrow> price_range (snd e) = \<lparr> pr_min = x, pr_max = x \<rparr>) \<and>
         (P = [] \<longrightarrow> price_range (snd e) = \<lparr> pr_min = 0, pr_max = 0 \<rparr>)"
proof -
  let ?g = "all_prices (snd e)"
  have g: "?g \<noteq> []" using assms(1) by (rule all_prices_find_best_prices)
  have "snd e = entry_of (filter (\<lambda>p. group_key p = fst e) ps)"
    using assms(1) by (simp add: in_find_best_prices)
  then have e: "snd e = entry_of ?g"
    using all_prices_find_best_prices(1) [OF assms(1)] by simp
  have s: "savings (snd e) = (if 2 \<le> length P then Max (set P) - Min (set P) else 0)"
    using savings_entry_of(1) [OF g] e assms(2) by metis
  have r: "price_range (snd e) =
           (if P = [] then \<lparr> pr_min = 0, pr_max = 0 \<rparr>
            else \<lparr> pr_min = Min (set P), pr_max = Max (set P) \<rparr>)"
    using savings_entry_of(2) [OF g] e assms(2) by metis
  have one: "length P < 2 \<Longrightarrow> P = [] \<or> (\<exists>x. P = [x])"
    by (cases P; cases "tl P") auto
  show ?thesis
  proof (intro conjI impI allI)
    assume "2 \<le> length P"
    then show "savings (snd e) = Max (set P) - Min (set P)" using s by simp
  next
    assume "2 \<le> length P"
    then have "P \<noteq> []" by auto
    then show "price_range (snd e) = \<lparr> pr_min = Min (set P), pr_max = Max (set P) \<rparr>"
      using r by simp
  next
    assume "length P < 2"
    then show "savings (snd e) = 0" using s by simp
  next
    assume "length P < 2"
    from one [OF this] show "pr_min (price_range (snd e)) = pr_max (price_range (snd e))"
      using r by auto
  next
    fix x assume "P = [x]"
    then show "price_range (snd e) = \<lparr> pr_min = x, pr_max = x \<rparr>" using r by simp
  next
    assume "P = []"
    then show "price_range (snd e) = \<lparr> pr_min = 0, pr_max = 0 \<rparr>" using r by simp
  qed
qed

lemma example_entry:
  "current_price a = 1999 / 100 \<and> current_price b = 2499 / 100 \<and> current_price c = 2699 / 100 \<longrightarrow>
     savings (best_price_entry a [b, c]) = 7 \<and>
     price_range (best_price_entry a [b, c]) = \<lparr> pr_min = 1999 / 100, pr_max = 2699 / 100 \<rparr>"
  by (simp add: best_price_entry_def Let_def py_min_key_def py_max_key_def)

text \<open>
  C2. For every product group, savings and price range are computed over the prices
  \<open>P\<close> of the records with \<open>current_price > 0\<close> only: with at least two such prices,
  savings is their maximum minus their minimum and the range is minimum and maximum; with
  fewer than two, savings is 0 and the range collapses to a single value (the one price,
  or 0 when there is none). In particular a group with prices 19.99, 24.99 and 26.99 yields
  savings 7.00 and the range from 19.99 to 26.99.
\<close>

theorem savings_over_positive_prices:
  assumes "e \<in> set (find_best_prices ps)"
    and "P = map current_price (filter (\<lambda>q. current_price q > 0) (all_prices (snd e)))"
  shows "(2 \<le> length P \<longrightarrow>
            savings (snd e) = Max (set P) - Min (set P) \<and>
            price_range (snd e) = \<lparr> pr_min = Min (set P), pr_max = Max (set P) \<rparr>) \<and>
         (length P < 2 \<longrightarrow>
            savings (snd e) = 0 \<and> pr_min (price_range (snd e)) = pr_max (price_range (snd e))) \<and>
         (\<forall>x. P = [x] \<longrightarrow> price_range (snd e) = \<lparr> pr_min = x, pr_max = x \<rparr>) \<and>
         (P = [] \<longrightarrow> price_range (snd e) = \<lparr> pr_min = 0, pr_max = 0 \<rparr>) \<and>
         (current_price a = 1999 / 100 \<and> current_price b = 2499 / 100 \<and>
          current_price c = 2699 / 100 \<longrightarrow>
            savings (best_price_entry a [b, c]) = 7 \<and>
            price_range (best_price_entry a [b, c])
              = \<lparr> pr_min = 1999 / 100, pr_max = 2699 / 100 \<rparr>)"
  using savings_cases [OF assms] example_entry [of a b c] by blast

theorem savings_over_positive_prices_witness:
  "find_best_prices example_mixed ! 0 \<in> set (find_best_prices example_mixed) \<and>
   savings (snd (find_best_prices example_mixed ! 0)) = 7 \<and>
   price_range (snd (find_best_prices example_mixed ! 0))
     = \<lparr> pr_min = 1999 / 100, pr_max = 2699 / 100 \<rparr> \<and>
   savings (snd (find_best_prices example_mixed ! 1)) = 0 \<and>
   price_range (snd (find_best_prices example_mixed ! 1))
     = \<lparr> pr_min = 1599 / 100, pr_max = 1599 / 100 \<rparr> \<and>
   savings (snd (find_best_prices example_mixed ! 2)) = 0 \<and>
   price_range (snd (find_best_prices example_mixed ! 2)) = \<lparr> pr_min = 0, pr_max = 0 \<rparr>"
proof -
  let ?r = "find_best_prices example_mixed"
  have h0: "?r ! 0 \<in> set ?r" and h1: "?r ! 1 \<in> set ?r" and h2: "?r ! 2 \<in> set ?r"
    by code_simp+
  have p0: "[1999 / 100, 2499 / 100, 2699 / 100]
      = map current_price (filter (\<lambda>q. current_price q > 0) (all_prices (snd (?r ! 0))))"
    by code_simp
  have p1: "[1599 / 100]
      = map current_price (filter (\<lambda>q. current_price q > 0) (all_prices (snd (?r ! 1))))"
    by code_simp
  have p2: "[]
      = map current_price (filter (\<lambda>q. current_price q > 0) (all_prices (snd (?r ! 2))))"
    by code_simp
  show ?thesis
    using savings_over_positive_prices [OF h0 p0] savings_over_positive_prices [OF h1 p1]
      savings_over_positive_prices [OF h2 p2] h0
    by simp
qed

text \<open>
  C6. Grouping preserves the invariant of a product group: every emitted group is non-empty,
  all its members are input records whose lower-cased, trimmed \<open>product_name\<close> is the key of
  the group, no key has two groups, and any two input records whose names agree after
  that normalization land in the same group.
\<close>

theorem groups_invariant:
  "(\<forall>e \<in> set (find_best_prices ps).
      all_prices (snd e) \<noteq> [] \<and>
      (\<forall>p \<in> set (all_prices (snd e)). p \<in> set ps \<and> group_key p = fst e)) \<and>
   distinct (map fst (find_best_prices ps)) \<and>
   (\<forall>p \<in> set ps. \<forall>q \<in> set ps. group_key p = group_key q \<longrightarrow>
      (\<exists>e \<in> set (find_best_prices ps).
         p \<in> set (all_prices (snd e)) \<and> q \<in> set (all_prices (snd e))))"
proof (intro conjI ballI impI)
  fix e assume e: "e \<in> set (find_best_prices ps)"
  show "all_prices (snd e) \<noteq> []" using e by (rule all_prices_find_best_prices)
  fix p assume "p \<in> set (all_prices (snd e))"
  then show "p \<in> set ps" "group_key p = fst e"
    using all_prices_find_best_prices(1) [OF e] by simp_all
next
  show "distinct (map fst (find_best_prices ps))"
    by (simp add: find_best_prices_groups groups_of_def comp_def distinct_first_seen)
next
  fix p q assume pq: "p \<in> set ps" "q \<in> set ps" "group_key p = group_key q"
  let ?e = "(group_key p, entry_of (filter (\<lambda>r. group_key r = group_key p) ps))"
  have e: "?e \<in> set (find_best_prices ps)"
    using pq(1) by (simp add: in_find_best_prices)
  have "all_prices (snd ?e) = filter (\<lambda>r. group_key r = group_key p) ps"
    using all_prices_find_best_prices(1) [OF e] by simp
  with pq have "p \<in> set (all_prices (snd ?e)) \<and> q \<in> set (all_prices (snd ?e))" by simp
  with e show "\<exists>e \<in> set (find_best_prices ps).
         p \<in> set (all_prices (snd e)) \<and> q \<in> set (all_prices (snd e))" by blast
qed

theorem groups_invariant_witness:
  "distinct (map fst (find_best_prices example_bananas)) \<and>
   example_bananas ! 0 \<in> set example_bananas \<and> example_bananas ! 2 \<in> set example_bananas \<and>
   group_key (example_bananas ! 0) = group_key (example_bananas ! 2) \<and>
   (\<exists>e \<in> set (find_best_prices example_bananas).
      example_bananas ! 0 \<in> set (all_prices (snd e)) \<and>
      example_bananas ! 2 \<in> set (all_prices (snd e)))"
proof -
  have a: "example_bananas ! 0 \<in> set example_bananas" by code_simp
  have b: "example_bananas ! 2 \<in> set example_bananas" by code_simp
  have c: "group_key (example_bananas ! 0) = group_key (example_bananas ! 2)" by code_simp
  from groups_invariant [of example_bananas] a b c show ?thesis by blast
qed

text \<open>
  C7. Aggregation is deterministic and idempotent: a call leaves the integrator and its
  input as they were, so a second call on them yields the identical result, and the result
  is a function of the input sequence alone: one entry for each key in the order of first
  encounter, computed from the rows of that key in input order.
\<close>

theorem find_best_prices_idempotent:
  "fst (find_best_prices_call (snd (find_best_prices_call st))) = fst (find_best_prices_call st) \<and>
   snd (find_best_prices_call st) = st \<and>
   fst (find_best_prices_call st) =
     map (\<lambda>k. (k, entry_of (filter (\<lambda>p. group_key p = k) (snd st))))
       (first_seen (map group_key (snd st)))"
  by (simp add: find_best_prices_call_def find_best_prices_groups groups_of_def comp_def)

subsection \<open>Rows whose price does not parse\<close>

lemma load_csv_data_map: "load_csv_data float rows = map (load_row float) rows"
proof -
  have "foldl (\<lambda>products row. products @ [load_row float row]) acc rows
          = acc @ map (load_row float) rows" for acc
    by (induction rows arbitrary: acc) simp_all
  then show ?thesis by (simp add: load_csv_data_def)
qed

lemma map_of_find_best_prices:
  "map_of (find_best_prices ps) k =
     (if k \<in> set (map group_key ps) then Some (entry_of (filter (\<lambda>p. group_key p = k) ps))
      else None)"
proof -
  have "map_of (map (\<lambda>k. (k, f k)) ks) k = (if k \<in> set ks then Some (f k) else None)"
    for f :: "string \<Rightarrow> best_price" and ks
    by (induction ks) auto
  then show ?thesis
    by (simp add: find_best_prices_groups groups_of_def comp_def set_first_seen)
qed

lemma stats_entry_of_insert:
  assumes "current_price z \<le> 0" "xs @ ys \<noteq> []"
  shows "savings (entry_of (xs @ z # ys)) = savings (entry_of (xs @ ys))"
    and "price_range (entry_of (xs @ z # ys)) = price_range (entry_of (xs @ ys))"
proof -
  have P: "map current_price (filter (\<lambda>q. current_price q > 0) (xs @ z # ys))
         = map current_price (filter (\<lambda>q. current_price q > 0) (xs @ ys))"
    using assms(1) by simp
  have ne: "xs @ z # ys \<noteq> []" by simp
  show "savings (entry_of (xs @ z # ys)) = savings (entry_of (xs @ ys))"
    unfolding savings_entry_of(1) [OF ne] savings_entry_of(1) [OF assms(2)] P ..
  show "price_range (entry_of (xs @ z # ys)) = price_range (entry_of (xs @ ys))"
    unfolding savings_entry_of(2) [OF ne] savings_entry_of(2) [OF assms(2)] P ..
qed

text \<open>
  C3 (as amended). For every record whose price field fails to parse as a number (or is
  missing from a short row) \<open>load_csv_data\<close> sets the price to 0.0 and keeps the record in the
  loaded list; the record is excluded from the savings and the price range of its group,
  which are computed from the prices above 0 only: taking the record out of the merged input
  changes the savings and the price range of no group that remains, and a group that holds
  nothing else has savings 0 and the range from 0 to 0.
\<close>

theorem unparsed_price_zero_excluded_from_savings:
  assumes "current_price row = None \<or> (\<exists>t. current_price row = Some t \<and> float t = None)"
    and "z = load_row float row"
  shows "current_price z = 0 \<and>
         (row \<in> set rows \<longrightarrow> z \<in> set (load_csv_data float rows)) \<and>
         (filter (\<lambda>p. group_key p = k) (xs @ ys) \<noteq> [] \<longrightarrow>
            map_option (\<lambda>e. (savings e, price_range e)) (map_of (find_best_prices (xs @ z # ys)) k)
          = map_option (\<lambda>e. (savings e, price_range e)) (map_of (find_best_prices (xs @ ys)) k)) \<and>
         (filter (\<lambda>p. group_key p = group_key z) (xs @ ys) = [] \<longrightarrow>
            map_option (\<lambda>e. (savings e, price_range e))
              (map_of (find_best_prices (xs @ z # ys)) (group_key z))
          = Some (0, \<lparr> pr_min = 0, pr_max = 0 \<rparr>))"
proof -
  have z: "current_price z = 0"
    using assms by (auto simp: load_row_def)
  have kept: "row \<in> set rows \<longrightarrow> z \<in> set (load_csv_data float rows)"
    using assms(2) by (simp add: load_csv_data_map)
  let ?f = "\<lambda>k ps. filter (\<lambda>p. group_key p = k) ps"
  have same: "map_option (\<lambda>e. (savings e, price_range e)) (map_of (find_best_prices (xs @ z # ys)) k)
          = map_option (\<lambda>e. (savings e, price_range e)) (map_of (find_best_prices (xs @ ys)) k)"
    if ne: "?f k (xs @ ys) \<noteq> []"
  proof -
    from ne have k: "k \<in> set (map group_key (xs @ ys))" "k \<in> set (map group_key (xs @ z # ys))"
      by (auto simp: filter_empty_conv)
    have ne': "?f k xs @ ?f k ys \<noteq> []" using ne by simp
    show ?thesis
    proof (cases "group_key z = k")
      case True
      then have "?f k (xs @ z # ys) = ?f k xs @ z # ?f k ys" by simp
      moreover have "?f k (xs @ ys) = ?f k xs @ ?f k ys" by simp
      ultimately show ?thesis
        using stats_entry_of_insert [OF _ ne', of z] z k
        by (simp only: map_of_find_best_prices if_True option.map order_refl)
    next
      case False
      then have "?f k (xs @ z # ys) = ?f k (xs @ ys)" by simp
      then show ?thesis using k
        by (simp only: map_of_find_best_prices if_True)
    qed
  qed
  have alone: "map_option (\<lambda>e. (savings e, price_range e))
              (map_of (find_best_prices (xs @ z # ys)) (group_key z))
          = Some (0, \<lparr> pr_min = 0, pr_max = 0 \<rparr>)"
    if e: "?f (group_key z) (xs @ ys) = []"
  proof -
    from e have "?f (group_key z) (xs @ z # ys) = [z]" by simp
    moreover have "group_key z \<in> set (map group_key (xs @ z # ys))" by simp
    moreover have "savings (entry_of [z]) = 0" "price_range (entry_of [z]) = \<lparr> pr_min = 0, pr_max = 0 \<rparr>"
      using z by (simp_all add: entry_of_def best_price_entry_def Let_def)
    ultimately show ?thesis
      by (simp only: map_of_find_best_prices if_True option.map)
  qed
  from z kept same alone show ?thesis by blast
qed

theorem unparsed_price_zero_excluded_from_savings_witness:
  "current_price (example_csv_rows ! 0) = Some ''N/A'' \<and> float_decimal ''N/A'' = None \<and>
   current_price (load_row float_decimal (example_csv_rows ! 0)) = 0 \<and>
   load_row float_decimal (example_csv_rows ! 0)
     \<in> set (load_csv_data float_decimal example_csv_rows) \<and>
   map_option (\<lambda>e. (savings e, price_range e))
     (map_of (find_best_prices
                [load_row float_decimal (example_csv_rows ! 0),
                 load_row float_decimal (example_csv_rows ! 1)]) ''bananas'')
   = map_option (\<lambda>e. (savings e, price_range e))
       (map_of (find_best_prices [load_row float_decimal (example_csv_rows ! 1)]) ''bananas'')"
proof -
  let ?row = "example_csv_rows ! 0"
  let ?z = "load_row float_decimal ?row"
  let ?y = "load_row float_decimal (example_csv_rows ! 1)"
  have a: "current_price ?row = Some ''N/A''" by code_simp
  have b: "float_decimal ''N/A'' = None" by code_simp
  from a b have fail: "current_price ?row = None \<or>
      (\<exists>t. current_price ?row = Some t \<and> float_decimal t = None)" by blast
  have r: "?row \<in> set example_csv_rows" by (simp add: example_csv_rows_def)
  have k: "filter (\<lambda>p. group_key p = ''bananas'') ([] @ [?y]) \<noteq> []" by code_simp
  from unparsed_price_zero_excluded_from_savings
    [OF fail refl, of example_csv_rows "''bananas''" "[]" "[?y]"] a b r k
  show ?thesis by simp
qed

text \<open>
  The claim as it was stated fails: of two rows for bananas, the one whose price cell reads
  \<open>N/A\<close> gets the price 0.0, not null, stays in its group and is selected as \<open>best_product\<close>.
\<close>

theorem unparsed_price_best_record_counterexample:
  "current_price (example_csv_rows ! 0) = Some ''N/A'' \<and> float_decimal ''N/A'' = None \<and>
   length (find_best_prices (load_csv_data float_decimal example_csv_rows)) = 1 \<and>
   best_product (snd (find_best_prices (load_csv_data float_decimal example_csv_rows) ! 0))
     = load_row float_decimal (example_csv_rows ! 0) \<and>
   current_price (best_product
      (snd (find_best_prices (load_csv_data float_decimal example_csv_rows) ! 0))) = 0"
proof -
  have a: "current_price (example_csv_rows ! 0) = Some ''N/A''" by code_simp
  have b: "float_decimal ''N/A'' = None" by code_simp
  have c: "length (find_best_prices (load_csv_data float_decimal example_csv_rows)) = 1"
    by code_simp
  have d: "best_product (snd (find_best_prices (load_csv_data float_decimal example_csv_rows) ! 0))
     = load_row float_decimal (example_csv_rows ! 0)" by code_simp
  have e: "current_price (best_product
      (snd (find_best_prices (load_csv_data float_decimal example_csv_rows) ! 0))) = 0"
    by code_simp
  from a b c d e show ?thesis by blast
qed

section \<open>Properties of the presentation adapter\<close>

lemma nat_of_digits_snoc: "nat_of_digits (ds @ [c]) = 10 * nat_of_digits ds + digit_val c"
  by (simp add: nat_of_digits_def)

lemma digit_val_char_of: "d < 10 \<Longrightarrow> digit_val (char_of (48 + d)) = d"
  by (simp add: digit_val_def)

lemma nat_of_digits_str_nat: "nat_of_digits (str_nat n) = n"
proof (induction n rule: str_nat.induct)
  case (1 n)
  show ?case
  proof (cases "n < 10")
    case True
    then show ?thesis
      using nat_of_digits_snoc [of "[]" "char_of (48 + n)"]
      by (simp add: str_nat.simps [of n] digit_val_char_of nat_of_digits_def)
  next
    case False
    then have "nat_of_digits (str_nat n) = 10 * (n div 10) + n mod 10"
      using 1 by (simp add: str_nat.simps [of n] nat_of_digits_snoc digit_val_char_of)
    then show ?thesis by simp
  qed
qed

lemma str_nat_inj: "str_nat m = str_nat n \<Longrightarrow> m = n"
  by (metis nat_of_digits_str_nat)

lemma price_step_fields:
  "product_id_counter (price_step st p) = product_id_counter st"
  "updated_products (price_step st p) = updated_products st"
  "price_id_counter (price_step st p) = price_id_counter st + 1"
  "map productId (updated_prices (price_step st p))
     = map productId (updated_prices st) @ [str_nat (product_id_counter st)]"
  by (simp_all add: price_step_def Let_def)

lemma foldl_price_step:
  "product_id_counter (foldl price_step st rows) = product_id_counter st \<and>
   updated_products (foldl price_step st rows) = updated_products st \<and>
   map productId (updated_prices (foldl price_step st rows))
     = map productId (updated_prices st) @ replicate (length rows) (str_nat (product_id_counter st))"
proof (induction rows arbitrary: st)
  case Nil
  show ?case by simp
next
  case (Cons r rows)
  show ?case
    using Cons [of "price_step st r"]
    by (simp add: price_step_fields replicate_append_same [symmetric] del: replicate.simps)
       (simp add: replicate_app_Cons_same)
qed

lemma product_step_fields:
  "product_id_counter (product_step st item) = product_id_counter st + 1"
  "map product_entry_id (updated_products (product_step st item))
     = map product_entry_id (updated_products st) @ [str_nat (product_id_counter st)]"
  "map product_entry_name (updated_products (product_step st item))
     = map product_entry_name (updated_products st) @ [product_name (best_product (snd item))]"
  "map productId (updated_prices (product_step st item))
     = map productId (updated_prices st)
       @ replicate (length (all_prices (snd item))) (str_nat (product_id_counter st))"
proof -
  let ?pe = "\<lambda>st item. \<lparr> product_entry_id = str_nat (product_id_counter st),
              product_entry_name = product_name (best_product (snd item)),
              brand = ''Generic'',
              product_entry_category =
                (case category (best_product (snd item)) of Some c \<Rightarrow> c | None \<Rightarrow> ''General''),
              barcode = ''600123456789'' @ str_nat (product_id_counter st),
              image =
                (case image_url (best_product (snd item)) of
                   Some u \<Rightarrow> u
                 | None \<Rightarrow> ''https://images.pexels.com/photos/'' @ str_nat (300000 + product_id_counter st)
                           @ ''/product.jpg?auto=compress&cs=tinysrgb&w=300&h=200&fit=crop''),
              product_entry_unit = ''each'',
              unitSize = (case unit (best_product (snd item)) of Some u \<Rightarrow> u | None \<Rightarrow> ''each'') \<rparr>"
  define st1 where "st1 = st \<lparr> updated_products := updated_products st @ [?pe st item] \<rparr>"
  have ps: "product_step st item
      = (foldl price_step st1 (all_prices (snd item))) \<lparr> product_id_counter := product_id_counter st + 1 \<rparr>"
    by (simp add: product_step_def Let_def st1_def)
  have f: "product_id_counter (foldl price_step st1 rows) = product_id_counter st1"
    "updated_products (foldl price_step st1 rows) = updated_products st1"
    "map productId (updated_prices (foldl price_step st1 rows))
     = map productId (updated_prices st1) @ replicate (length rows) (str_nat (product_id_counter st1))"
    for rows using foldl_price_step [of st1 rows] by simp_all
  show "product_id_counter (product_step st item) = product_id_counter st + 1"
    by (simp add: ps)
  show "map product_entry_id (updated_products (product_step st item))
     = map product_entry_id (updated_products st) @ [str_nat (product_id_counter st)]"
    by (simp add: ps f) (simp add: st1_def)
  show "map product_entry_name (updated_products (product_step st item))
     = map product_entry_name (updated_products st) @ [product_name (best_product (snd item))]"
    by (simp add: ps f) (simp add: st1_def)
  show "map productId (updated_prices (product_step st item))
     = map productId (updated_prices st)
       @ replicate (length (all_prices (snd item))) (str_nat (product_id_counter st))"
    by (simp add: ps f) (simp add: st1_def)
qed

lemma foldl_product_step:
  "product_id_counter (foldl product_step st items) = product_id_counter st + length items \<and>
   map product_entry_id (updated_products (foldl product_step st items))
     = map product_entry_id (updated_products st)
       @ map str_nat [product_id_counter st ..< product_id_counter st + length items] \<and>
   map product_entry_name (updated_products (foldl product_step st items))
     = map product_entry_name (updated_products st)
       @ map (\<lambda>item. product_name (best_product (snd item))) items \<and>
   map productId (updated_prices (foldl product_step st items))
     = map productId (updated_prices st)
       @ concat (map (\<lambda>(i, item). replicate (length (all_prices (snd item))) (str_nat i))
                   (enumerate (product_id_counter st) items))"
proof (induction items arbitrary: st)
  case Nil
  show ?case by simp
next
  case (Cons item items)
  have up: "[product_id_counter st ..< product_id_counter st + length (item # items)]
      = product_id_counter st # [product_id_counter st + 1 ..< product_id_counter st + 1 + length items]"
    by (simp add: upt_rec)
  show ?case
    using Cons [of "product_step st item"]
    unfolding up
    by (simp add: product_step_fields)
qed

lemma py_sum_sum_list: "py_sum xs = sum_list xs"
proof -
  have "foldl (+) a xs = a + sum_list xs" for a :: rat
    by (induction xs arbitrary: a) simp_all
  then show ?thesis by (simp add: py_sum_def)
qed

lemma generate_mock_data_update_Inr:
  "generate_mock_data_update now bp =
     Inr \<lparr> products = updated_products (update_loop bp),
           prices = updated_prices (update_loop bp),
           lastUpdated = now,
           summary = \<lparr> totalProducts = length (updated_products (update_loop bp)),
                       totalPrices = length (updated_prices (update_loop bp)),
                       avgSavings = (if bp = [] then 0
                                     else sum_list (map (\<lambda>item. savings (snd item)) bp)
                                          / of_nat (length bp)) \<rparr> \<rparr>"
  by (cases bp) (simp_all add: generate_mock_data_update_def update_loop_def py_truediv_def
      py_sum_sum_list Let_def)

lemma update_loop_fields:
  "map product_entry_id (updated_products (update_loop bp))
     = map str_nat [1 ..< 1 + min 20 (length bp)]"
  "map product_entry_name (updated_products (update_loop bp))
     = map (\<lambda>item. product_name (best_product (snd item))) (take 20 bp)"
  "map productId (updated_prices (update_loop bp))
     = concat (map (\<lambda>(i, item). replicate (length (all_prices (snd item))) (str_nat i))
                 (enumerate 1 (take 20 bp)))"
  using foldl_product_step
    [of "\<lparr> product_id_counter = 1, price_id_counter = 1, updated_products = [],
           updated_prices = [] \<rparr>" "take 20 bp"]
  by (simp_all add: update_loop_def min.commute)

lemma length_update_loop: "length (updated_products (update_loop bp)) = min 20 (length bp)"
proof -
  have "length (updated_products (update_loop bp))
          = length (map product_entry_id (updated_products (update_loop bp)))"
    by simp
  also have "\<dots> = length (map str_nat [1 ..< 1 + min 20 (length bp)])"
    by (simp only: update_loop_fields(1))
  also have "\<dots> = min 20 (length bp)"
    by (simp only: length_map length_upt add_diff_cancel_left')
  finally show ?thesis .
qed

text \<open>
  C9. The presentation adapter emits at most 20 product entries: only the first 20 groups
  in encounter order are mapped, one entry each, and the rest are dropped. The product entries carry
  the identifiers \<open>1\<close>, \<open>2\<close>, ... in order, all different, and the price entries emitted for
  the group numbered \<open>i\<close>, one for each of its rows, carry \<open>productId = str(i)\<close>, the
  identifier of the product entry of that group.
\<close>

theorem mock_data_products_capped:
  assumes "generate_mock_data_update now bp = Inr out"
  shows "length (products out) = min 20 (length bp) \<and> length (products out) \<le> 20 \<and>
         map product_entry_id (products out) = map str_nat [1 ..< 1 + length (products out)] \<and>
         distinct (map product_entry_id (products out)) \<and>
         map product_entry_name (products out)
           = map (\<lambda>item. product_name (best_product (snd item))) (take 20 bp) \<and>
         map productId (prices out)
           = concat (map (\<lambda>(i, item). replicate (length (all_prices (snd item))) (str_nat i))
                       (enumerate 1 (take 20 bp))) \<and>
         (\<forall>e \<in> set (prices out). \<exists>p \<in> set (products out). productId e = product_entry_id p)"
proof -
  have p: "products out = updated_products (update_loop bp)"
    and q: "prices out = updated_prices (update_loop bp)"
    using assms unfolding generate_mock_data_update_Inr by auto
  have len: "length (products out) = min 20 (length bp)"
    by (simp add: p length_update_loop)
  have ids: "map product_entry_id (products out) = map str_nat [1 ..< 1 + length (products out)]"
    unfolding len by (simp add: p update_loop_fields(1))
  have "inj_on str_nat (set [1 ..< 1 + length (products out)])"
    by (rule inj_onI) (rule str_nat_inj)
  then have dist: "distinct (map product_entry_id (products out))"
    unfolding ids by (simp add: distinct_map)
  have names: "map product_entry_name (products out)
           = map (\<lambda>item. product_name (best_product (snd item))) (take 20 bp)"
    by (simp add: p update_loop_fields(2))
  have pids: "map productId (prices out)
           = concat (map (\<lambda>(i, item). replicate (length (all_prices (snd item))) (str_nat i))
                       (enumerate 1 (take 20 bp)))"
    by (simp add: q update_loop_fields(3))
  have ref: "\<exists>p \<in> set (products out). productId e = product_entry_id p"
    if e: "e \<in> set (prices out)" for e
  proof -
    from e have "productId e \<in> set (map productId (prices out))" by simp
    then obtain i item where i: "(i, item) \<in> set (enumerate 1 (take 20 bp))"
      and eq: "productId e = str_nat i"
      unfolding pids by (auto split: if_splits)
    from i have "1 \<le> i \<and> i < 1 + length (take 20 bp)"
      by (simp add: in_set_enumerate_eq)
    then have "i \<in> set [1 ..< 1 + length (products out)]"
      unfolding len set_upt by (simp add: min.commute)
    then have "str_nat i \<in> str_nat ` set [1 ..< 1 + length (products out)]"
      by (rule imageI)
    then have "str_nat i \<in> set (map product_entry_id (products out))"
      unfolding ids set_map .
    with eq show ?thesis by auto
  qed
  have cap: "length (products out) \<le> 20" unfolding len by simp
  from len cap ids dist names pids ref show ?thesis by blast
qed

theorem mock_data_products_capped_witness:
  "generate_mock_data_update ''2025-06-01T09:00:00'' (find_best_prices example_many_rows)
     = Inr (projr (generate_mock_data_update ''2025-06-01T09:00:00''
                     (find_best_prices example_many_rows))) \<and>
   length (find_best_prices example_many_rows) = 21 \<and>
   length (products (projr (generate_mock_data_update ''2025-06-01T09:00:00''
                              (find_best_prices example_many_rows)))) = 20 \<and>
   map product_entry_id (products (projr (generate_mock_data_update ''2025-06-01T09:00:00''
                              (find_best_prices example_many_rows))))
     = map str_nat [1 ..< 21]"
proof -
  let ?bp = "find_best_prices example_many_rows"
  let ?out = "projr (generate_mock_data_update ''2025-06-01T09:00:00'' ?bp)"
  have h: "generate_mock_data_update ''2025-06-01T09:00:00'' ?bp = Inr ?out"
    by (simp add: generate_mock_data_update_Inr)
  have n: "length ?bp = 21" by code_simp
  from mock_data_products_capped [OF h]
  have "length (products ?out) = min 20 (length ?bp)"
    and "map product_entry_id (products ?out) = map str_nat [1 ..< 1 + length (products ?out)]"
    by blast+
  then have "length (products ?out) = 20"
    and "map product_entry_id (products ?out) = map str_nat [1 ..< 21]"
    unfolding n by simp_all
  with h n show ?thesis by blast
qed

text \<open>
  C10. The summary of the presentation adapter is total, also on an empty mapping: the
  adapter always returns, never raising \<open>ZeroDivisionError\<close>; with no group \<open>avgSavings\<close>
  is 0, otherwise it is the mean of the savings over all groups, those beyond the cap of 20
  emitted products included.
\<close>

theorem avg_savings_total:
  "\<exists>out. generate_mock_data_update now bp = Inr out \<and>
         avgSavings (summary out)
           = (if bp = [] then 0
              else sum_list (map (\<lambda>item. savings (snd item)) bp) / of_nat (length bp)) \<and>
         totalProducts (summary out) = min 20 (length bp)"
  by (simp add: generate_mock_data_update_Inr length_update_loop)

theorem avg_savings_total_witness:
  "length (find_best_prices example_many_rows) = 21 \<and>
   totalProducts (summary (projr (generate_mock_data_update ''2025-06-01T09:00:00''
                                    (find_best_prices example_many_rows)))) = 20 \<and>
   avgSavings (summary (projr (generate_mock_data_update ''2025-06-01T09:00:00''
                                 (find_best_prices example_many_rows)))) = 10 \<and>
   totalProducts (summary (projr (generate_mock_data_update ''2025-06-01T09:00:00'' []))) = 0 \<and>
   avgSavings (summary (projr (generate_mock_data_update ''2025-06-01T09:00:00'' []))) = 0"
proof -
  let ?bp = "find_best_prices example_many_rows"
  let ?gen = "generate_mock_data_update ''2025-06-01T09:00:00''"
  have n: "length ?bp = 21" by code_simp
  then have ne: "?bp \<noteq> []" by auto
  have s: "sum_list (map (\<lambda>item. savings (snd item)) ?bp) = 210" by code_simp
  from avg_savings_total [of "''2025-06-01T09:00:00''" ?bp]
  have "totalProducts (summary (projr (?gen ?bp))) = min 20 (length ?bp)"
    and "avgSavings (summary (projr (?gen ?bp)))
           = sum_list (map (\<lambda>item. savings (snd item)) ?bp) / of_nat (length ?bp)"
    using ne by auto
  then have 1: "totalProducts (summary (projr (?gen ?bp))) = 20"
    and 2: "avgSavings (summary (projr (?gen ?bp))) = 10"
    unfolding n s by simp_all
  from avg_savings_total [of "''2025-06-01T09:00:00''" "[]"]
  have 3: "totalProducts (summary (projr (?gen []))) = 0"
    and 4: "avgSavings (summary (projr (?gen []))) = 0"
    by auto
  from n 1 2 3 4 show ?thesis by blast
qed

end
